theory Spec2Isabelle
  imports Main "HOL-Library.Multiset" "HOL-Library.AList"
begin

section \<open>Python values used by setsolver.py\<close>

text \<open>
  Feature names and feature values are Python strings (\<open>string\<close>). A Python \<open>dict\<close> is an
  association list in insertion order: \<open>d[k]\<close> is \<open>getitem d k\<close> (raising \<open>KeyError\<close> on a
  missing key), \<open>d[k] = v\<close> is \<open>AList.update k v d\<close> (an existing key keeps its place, a new
  key goes to the end), \<open>d.keys()\<close> is \<open>map fst d\<close>. The exceptions the modelled code can
  raise are values of \<open>error\<close>; a function that can raise returns \<open>error + 'a\<close>.
\<close>

datatype error = TypeError | AttributeError | KeyError | IndexError

definition getitem :: "('k \<times> 'v) list \<Rightarrow> 'k \<Rightarrow> error + 'v" where
  "getitem d k = (case map_of d k of None \<Rightarrow> Inl KeyError | Some v \<Rightarrow> Inr v)"

text \<open>A list comprehension \<open>[f(x) for x in xs]\<close> whose body can raise: the first raise ends it.\<close>

fun comprehension :: "('a \<Rightarrow> error + 'b) \<Rightarrow> 'a list \<Rightarrow> error + 'b list" where
  "comprehension f [] = Inr []"
| "comprehension f (x # xs) =
     (case f x of
        Inl e \<Rightarrow> Inl e
      | Inr y \<Rightarrow> (case comprehension f xs of Inl e \<Rightarrow> Inl e | Inr ys \<Rightarrow> Inr (y # ys)))"

text \<open>\<open>set(a).symmetric_difference(set(b))\<close>.\<close>

definition symmetric_difference :: "'a set \<Rightarrow> 'a set \<Rightarrow> 'a set" where
  "symmetric_difference A B = (A - B) \<union> (B - A)"

section \<open>The feature classifier: \<open>is_feature_a_set\<close>\<close>

text \<open>
  The module constants \<open>SAME = "Same"\<close> and \<open>DIFFERENT = "Different"\<close>. The classifier returns
  one of them or Python's \<open>False\<close>, which is \<open>None\<close> here.
\<close>

definition SAME :: string where
  "SAME = ''Same''"

definition DIFFERENT :: string where
  "DIFFERENT = ''Different''"

definition is_feature_a_set :: "'a list \<Rightarrow> string option" where
  "is_feature_a_set feat_values =
     (let collapse = set feat_values in
      if card collapse = 1 then Some SAME
      else if card collapse = length feat_values then Some DIFFERENT
      else None)"

section \<open>Cards\<close>

datatype Card = Card (features: "(string \<times> string) list")

definition get_feature_names :: "Card \<Rightarrow> string list" where
  "get_feature_names self = map fst (Card.features self)"

text \<open>
  The second argument of \<open>Card.compatible\<close> is a card or a collection of feature names
  (the \<open>isinstance\<close> test of the source).
\<close>

datatype card_or_features = IsCard Card | IsFeatures "string list"

definition other_names :: "card_or_features \<Rightarrow> string list" where
  "other_names secondCardOrFeatures =
     (case secondCardOrFeatures of
        IsCard c \<Rightarrow> get_feature_names c
      | IsFeatures fs \<Rightarrow> fs)"

definition compatible :: "Card \<Rightarrow> card_or_features \<Rightarrow> bool" where
  "compatible firstCard secondCardOrFeatures =
     (card (symmetric_difference (set (get_feature_names firstCard))
                                 (set (other_names secondCardOrFeatures))) = 0)"

text \<open>\<open>Card.__eq__\<close>: the compatibility guard, then the loop over the first card's features.\<close>

fun eq_loop :: "string list \<Rightarrow> Card \<Rightarrow> Card \<Rightarrow> error + bool" where
  "eq_loop [] firstCard secondCard = Inr True"
| "eq_loop (feat # rest) firstCard secondCard =
     (case getitem (Card.features firstCard) feat of
        Inl e \<Rightarrow> Inl e
      | Inr v1 \<Rightarrow>
          (case getitem (Card.features secondCard) feat of
             Inl e \<Rightarrow> Inl e
           | Inr v2 \<Rightarrow> if v1 \<noteq> v2 then Inr False else eq_loop rest firstCard secondCard))"

definition Card_eq :: "Card \<Rightarrow> Card \<Rightarrow> error + bool" where
  "Card_eq firstCard secondCard =
     (if \<not> compatible firstCard (IsCard secondCard) then Inr False
      else eq_loop (get_feature_names firstCard) firstCard secondCard)"

section \<open>The group matcher: \<open>is_set\<close>\<close>

text \<open>
  \<open>is_set\<close> returns Python's \<open>False\<close> (\<open>None\<close> here) or the dictionary of match types. The
  column of a feature is the comprehension \<open>[card.features[feat] for card in cards]\<close>.
  The test \<open>if not set_type\<close> takes Python's truth value of the classifier's result:
  \<open>False\<close> and the empty string are falsy.
\<close>

definition column :: "string \<Rightarrow> Card list \<Rightarrow> error + string list" where
  "column feat cards = comprehension (\<lambda>card. getitem (Card.features card) feat) cards"

fun is_set_loop ::
  "string list \<Rightarrow> Card list \<Rightarrow> (string \<times> string) list \<Rightarrow> error + (string \<times> string) list option"
where
  "is_set_loop [] cards set_types = Inr (Some set_types)"
| "is_set_loop (feat # rest) cards set_types =
     (case column feat cards of
        Inl e \<Rightarrow> Inl e
      | Inr vals \<Rightarrow>
          (case is_feature_a_set vals of
             None \<Rightarrow> Inr None
           | Some set_type \<Rightarrow>
               if set_type = [] then Inr None
               else is_set_loop rest cards (AList.update feat set_type set_types)))"

definition is_set :: "Card list \<Rightarrow> error + (string \<times> string) list option" where
  "is_set cards =
     (if length cards = 0 then Inr None
      else is_set_loop (get_feature_names (cards ! 0)) cards [])"

section \<open>The combination generator\<close>

text \<open>
  \<open>generate_card_combos\<close> is a Python generator; the model is the list of what it yields, in
  the order it yields them. \<open>nitems\<close> is a Python integer, so it may be negative: the
  recursion then never reaches \<open>nitems == 0\<close> and ends when the items run out.
\<close>

function generate_card_combos :: "'a list \<Rightarrow> int \<Rightarrow> 'a list list" where
  "generate_card_combos items nitems =
     (if nitems = 0 then [[]]
      else concat (map (\<lambda>i. map (\<lambda>item. [items ! i] @ item)
                                (generate_card_combos (drop (i + 1) items) (nitems - 1)))
                       [0..<length items]))"
  by pat_completeness auto
termination
  by (relation "measure (\<lambda>(items, nitems). length items)") auto

declare generate_card_combos.simps [simp del]

text \<open>The lexicographic order on selections, from the order of their items.\<close>

abbreviation lex_less :: "('a::order) list \<Rightarrow> 'a list \<Rightarrow> bool" where
  "lex_less a b \<equiv> (a, b) \<in> lexord {(i, j). i < j}"

section \<open>Card sets and the deck\<close>

record CardSet =
  card_positions :: "nat list option"
  cards :: "Card list"
  set_types :: "(string \<times> string) list option"

definition CardSet_init :: "Card list \<Rightarrow> nat list option \<Rightarrow> CardSet" where
  "CardSet_init grp positions =
     \<lparr>card_positions = positions, cards = grp, set_types = None\<rparr>"

definition check_set :: "CardSet \<Rightarrow> error + (string \<times> string) list option" where
  "check_set self = is_set (CardSet.cards self)"

text \<open>
  The deck's attributes. \<open>features\<close> and \<open>cards\<close> are \<open>None\<close> until a file is loaded;
  \<open>comments\<close> does not exist before \<open>load_file\<close> (\<open>None\<close> here). A method returns its
  result, or the exception it raised, together with the deck as the call left it.
\<close>

record CardDeck =
  features :: "string list option"
  cards :: "Card list option"
  sets :: "CardSet list"
  feature_values :: "(string \<times> string set) list"
  comments :: "string list option"

subsection \<open>Loading a file\<close>

text \<open>
  The file is given by its lines, as \<open>for line in f\<close> reads them (opening the file is outside
  the model). A character of a line is a code point below 256. \<open>str.strip()\<close> removes
  leading and trailing whitespace, the characters for which \<open>str.isspace()\<close> holds: among
  the code points below 256 these are 9 to 13, 28 to 32, 133 and 160. \<open>str.split("\t")\<close>
  cuts at every tab.
\<close>

definition isspace :: "char \<Rightarrow> bool" where
  "isspace c = (c \<in> set [CHR 0x09, CHR 0x0A, CHR 0x0B, CHR 0x0C, CHR 0x0D,
                           CHR 0x1C, CHR 0x1D, CHR 0x1E, CHR 0x1F, CHR 0x20,
                           CHR 0x85, CHR 0xA0])"

definition strip :: "string \<Rightarrow> string" where
  "strip s = rev (dropWhile isspace (rev (dropWhile isspace s)))"

fun split_tab :: "string \<Rightarrow> string list" where
  "split_tab [] = [[]]"
| "split_tab (c # cs) =
     (if c = CHR 0x09 then [] # split_tab cs
      else (case split_tab cs of
              [] \<Rightarrow> [[c]]
            | part # parts \<Rightarrow> (c # part) # parts))"

text \<open>\<open>dict(zip(keys, vals))\<close>.\<close>

definition dict_zip :: "'k list \<Rightarrow> 'v list \<Rightarrow> ('k \<times> 'v) list" where
  "dict_zip keys vals = fold (\<lambda>(k, v) d. AList.update k v d) (zip keys vals) []"

text \<open>The comprehension that records the distinct values of a card that was loaded.\<close>

fun add_values ::
  "(string \<times> string) list \<Rightarrow> (string \<times> string set) list
     \<Rightarrow> (error + unit) \<times> (string \<times> string set) list"
where
  "add_values [] fv = (Inr (), fv)"
| "add_values ((feat, v) # rest) fv =
     (case getitem fv feat of
        Inl e \<Rightarrow> (Inl e, fv)
      | Inr seen \<Rightarrow>
          if v \<notin> seen then add_values rest (AList.update feat (insert v seen) fv)
          else add_values rest fv)"

definition set_header :: "CardDeck \<Rightarrow> string list \<Rightarrow> CardDeck" where
  "set_header self flds =
     self\<lparr>features := Some flds,
          feature_values := fold (\<lambda>feat fv. AList.update feat {} fv) flds (feature_values self)\<rparr>"

definition load_card :: "CardDeck \<Rightarrow> string list \<Rightarrow> string list \<Rightarrow> (error + unit) \<times> CardDeck" where
  "load_card self fs flds =
     (let card_features = dict_zip fs flds; c = Card card_features in
      case CardDeck.cards self of
        None \<Rightarrow> (Inl AttributeError, self)
      | Some cs \<Rightarrow>
          (let self1 = self\<lparr>CardDeck.cards := Some (cs @ [c])\<rparr> in
           case add_values card_features (feature_values self1) of
             (r, fv) \<Rightarrow> (r, self1\<lparr>feature_values := fv\<rparr>)))"

fun load_lines :: "CardDeck \<Rightarrow> string list \<Rightarrow> (error + unit) \<times> CardDeck" where
  "load_lines self [] = (Inr (), self)"
| "load_lines self (raw # rest) =
     (let line = strip raw in
      if length line = 0 \<or> line ! 0 = CHR ''#'' then
        (case comments self of
           None \<Rightarrow> (Inl AttributeError, self)
         | Some cms \<Rightarrow> load_lines (self\<lparr>comments := Some (cms @ [line])\<rparr>) rest)
      else
        (let flds = split_tab line in
         case CardDeck.features self of
           None \<Rightarrow> load_lines (set_header self flds) rest
         | Some fs \<Rightarrow>
             if fs = [] then load_lines (set_header self flds) rest
             else if length flds \<noteq> length fs then load_lines self rest
             else (case load_card self fs flds of
                     (Inl e, self1) \<Rightarrow> (Inl e, self1)
                   | (Inr u, self1) \<Rightarrow> load_lines self1 rest)))"

definition load_file :: "CardDeck \<Rightarrow> string list \<Rightarrow> (error + unit) \<times> CardDeck" where
  "load_file self file_lines =
     load_lines (self\<lparr>CardDeck.cards := Some [], CardDeck.features := None, comments := Some []\<rparr>)
       file_lines"

text \<open>\<open>CardDeck()\<close>, and \<open>CardDeck(load_file)\<close> on a file with the given lines.\<close>

definition new_deck :: CardDeck where
  "new_deck = \<lparr>features = None, cards = None, sets = [], feature_values = [], comments = None\<rparr>"

definition CardDeck_init :: "string list option \<Rightarrow> error + CardDeck" where
  "CardDeck_init file =
     (case file of
        None \<Rightarrow> Inr new_deck
      | Some file_lines \<Rightarrow>
          (case load_file new_deck file_lines of
             (Inl e, self) \<Rightarrow> Inl e
           | (Inr u, self) \<Rightarrow> Inr self))"

subsection \<open>Adding a card\<close>

text \<open>
  \<open>len(self.features)\<close> raises \<open>TypeError\<close> on \<open>None\<close>; \<open>self.cards.append\<close> raises
  \<open>AttributeError\<close> on \<open>None\<close>.
\<close>

definition append_card :: "CardDeck \<Rightarrow> Card \<Rightarrow> (error + bool) \<times> CardDeck" where
  "append_card self c =
     (case CardDeck.cards self of
        None \<Rightarrow> (Inl AttributeError, self)
      | Some cs \<Rightarrow> (Inr True, self\<lparr>CardDeck.cards := Some (cs @ [c])\<rparr>))"

definition add_card :: "CardDeck \<Rightarrow> Card \<Rightarrow> (error + bool) \<times> CardDeck" where
  "add_card self c =
     (case CardDeck.features self of
        None \<Rightarrow> (Inl TypeError, self)
      | Some fs \<Rightarrow>
          if length fs = 0 then
            append_card (self\<lparr>CardDeck.features := Some (get_feature_names c)\<rparr>) c
          else if \<not> compatible c (IsFeatures fs) then (Inr False, self)
          else append_card self c)"

subsection \<open>Solving\<close>

text \<open>
  \<open>card_position_combos\<close> runs the generator over \<open>range(len(self.cards))\<close>. The calls to the
  logger in \<open>solve\<close> change neither the deck nor the result and are left out.
\<close>

definition card_position_combos :: "CardDeck \<Rightarrow> int \<Rightarrow> error + nat list list" where
  "card_position_combos self setsize =
     (case CardDeck.cards self of
        None \<Rightarrow> Inl TypeError
      | Some cs \<Rightarrow> Inr (generate_card_combos [0..<length cs] setsize))"

text \<open>
  \<open>card_combinations\<close> hands \<open>self.cards\<close> to the generator as it is: on \<open>None\<close> the
  generator yields the empty selection for size 0 and raises \<open>TypeError\<close> at \<open>len(items)\<close>
  for any other size.
\<close>

definition card_combinations :: "CardDeck \<Rightarrow> int \<Rightarrow> error + Card list list" where
  "card_combinations self setsize =
     (case CardDeck.cards self of
        None \<Rightarrow> if setsize = 0 then Inr [[]] else Inl TypeError
      | Some cs \<Rightarrow> Inr (generate_card_combos cs setsize))"

definition card_at :: "CardDeck \<Rightarrow> nat \<Rightarrow> error + Card" where
  "card_at self position =
     (case CardDeck.cards self of
        None \<Rightarrow> Inl TypeError
      | Some cs \<Rightarrow> if position < length cs then Inr (cs ! position) else Inl IndexError)"

text \<open>Python's truth value of what \<open>is_set\<close> returns: \<open>False\<close> and the empty dictionary are falsy.\<close>

definition truthy_dict :: "('k \<times> 'v) list option \<Rightarrow> bool" where
  "truthy_dict r = (case r of None \<Rightarrow> False | Some d \<Rightarrow> d \<noteq> [])"

fun solve_loop :: "CardDeck \<Rightarrow> nat list list \<Rightarrow> (error + CardSet list) \<times> CardDeck" where
  "solve_loop self [] = (Inr (sets self), self)"
| "solve_loop self (combo # rest) =
     (case comprehension (card_at self) combo of
        Inl e \<Rightarrow> (Inl e, self)
      | Inr grp \<Rightarrow>
          (case is_set grp of
             Inl e \<Rightarrow> (Inl e, self)
           | Inr set_match \<Rightarrow>
               if truthy_dict set_match then
                 solve_loop (self\<lparr>sets := sets self @ [CardSet_init grp (Some combo)]\<rparr>) rest
               else solve_loop self rest))"

definition solve :: "CardDeck \<Rightarrow> int \<Rightarrow> (error + CardSet list) \<times> CardDeck" where
  "solve self setsize =
     (let self1 = self\<lparr>sets := []\<rparr> in
      case CardDeck.features self1 of
        None \<Rightarrow> (Inl TypeError, self1)
      | Some fs \<Rightarrow>
          (case card_position_combos self1 setsize of
             Inl e \<Rightarrow> (Inl e, self1)
           | Inr combos \<Rightarrow> solve_loop self1 combos))"

text \<open>The decks a program can build through the class: the constructor and the three methods.\<close>

inductive reachable :: "CardDeck \<Rightarrow> bool" where
  reachable_new: "reachable new_deck"
| reachable_load: "reachable d \<Longrightarrow> reachable (snd (load_file d file_lines))"
| reachable_add: "reachable d \<Longrightarrow> reachable (snd (add_card d c))"
| reachable_solve: "reachable d \<Longrightarrow> reachable (snd (solve d setsize))"

text \<open>
  Two invariants of the decks a program can build. \<open>deck_inv\<close>: a deck without a schema
  holds no card, and in a deck with a schema the schema is not empty and every card has
  exactly its feature names. \<open>values_recorded\<close>: every feature value of every card of the
  deck is in the deck's set of distinct values for that feature.
\<close>

definition deck_inv :: "CardDeck \<Rightarrow> bool" where
  "deck_inv d =
     ((CardDeck.features d = None \<longrightarrow> CardDeck.cards d = None \<or> CardDeck.cards d = Some [])
      \<and> (\<forall>fs. CardDeck.features d = Some fs \<longrightarrow>
             fs \<noteq> [] \<and> (\<exists>cs. CardDeck.cards d = Some cs
                            \<and> (\<forall>c\<in>set cs. set (get_feature_names c) = set fs))))"

definition values_recorded :: "CardDeck \<Rightarrow> bool" where
  "values_recorded d =
     (\<forall>cs. CardDeck.cards d = Some cs \<longrightarrow>
        (\<forall>c\<in>set cs. \<forall>(feat, v)\<in>set (Card.features c).
           \<exists>seen. map_of (feature_values d) feat = Some seen \<and> v \<in> seen))"

section \<open>Properties of the classifier\<close>

lemma card_set_one_iff: "xs \<noteq> [] \<Longrightarrow> (card (set xs) = 1) = (\<forall>v\<in>set xs. v = hd xs)"
proof
  assume ne: "xs \<noteq> []" and c: "card (set xs) = 1"
  then obtain a where a: "set xs = {a}" by (auto simp: card_1_singleton_iff)
  with ne have "hd xs = a" by (metis hd_in_set singletonD)
  with a show "\<forall>v\<in>set xs. v = hd xs" by simp
next
  assume ne: "xs \<noteq> []" and all: "\<forall>v\<in>set xs. v = hd xs"
  then have "set xs = {hd xs}" by (auto)
  then show "card (set xs) = 1" by simp
qed

text \<open>
  Claim C4. On a non-empty sequence of \<open>k\<close> values with \<open>d\<close> distinct values the classifier
  returns \<open>SAME\<close> when \<open>d = 1\<close>, otherwise \<open>DIFFERENT\<close> when \<open>d = k\<close>, otherwise the
  sentinel \<open>False\<close>; it raises nothing. \<open>d = 1\<close> says that all values are equal, \<open>d = k\<close> that
  they are pairwise distinct, and a single value is classified \<open>SAME\<close>.
\<close>

theorem is_feature_a_set_classifies:
  assumes "feat_values \<noteq> []"
  shows "is_feature_a_set feat_values =
           (if card (set feat_values) = 1 then Some SAME
            else if card (set feat_values) = length feat_values then Some DIFFERENT
            else None)
         \<and> (card (set feat_values) = 1 \<longleftrightarrow> (\<forall>v\<in>set feat_values. v = hd feat_values))
         \<and> (card (set feat_values) = length feat_values \<longleftrightarrow> distinct feat_values)
         \<and> (length feat_values = 1 \<longrightarrow> is_feature_a_set feat_values = Some SAME)
         \<and> SAME \<noteq> DIFFERENT"
proof -
  have one: "length feat_values = 1 \<longrightarrow> card (set feat_values) = 1"
    by (cases feat_values) auto
  have d: "(card (set feat_values) = length feat_values) = distinct feat_values"
    using card_distinct distinct_card by metis
  have s: "SAME \<noteq> DIFFERENT" by (simp add: SAME_def DIFFERENT_def)
  have r: "is_feature_a_set feat_values =
           (if card (set feat_values) = 1 then Some SAME
            else if card (set feat_values) = length feat_values then Some DIFFERENT
            else None)"
    by (simp add: is_feature_a_set_def)
  have k1: "length feat_values = 1 \<longrightarrow> is_feature_a_set feat_values = Some SAME"
    using one r by simp
  from r card_set_one_iff[OF assms] d k1 s show ?thesis by blast
qed

theorem is_feature_a_set_classifies_witness:
  "[''a'', ''a'', ''b''] \<noteq> [] \<and> is_feature_a_set [''a'', ''a'', ''b''] = None"
proof -
  have ne: "[''a'', ''a'', ''b''] \<noteq> []" by simp
  have c: "card (set [''a'', ''a'', ''b'']) = 2" by simp
  from is_feature_a_set_classifies [OF ne] have
    "is_feature_a_set [''a'', ''a'', ''b''] =
           (if card (set [''a'', ''a'', ''b'']) = 1 then Some SAME
            else if card (set [''a'', ''a'', ''b'']) = length [''a'', ''a'', ''b''] then Some DIFFERENT
            else None)" by (rule conjunct1)
  with c ne show ?thesis by simp
qed

text \<open>
  Claim C9. The classifier depends only on the multiset of its values: two sequences that
  are permutations of each other get the same result.
\<close>

theorem is_feature_a_set_permutation:
  "mset xs = mset ys \<Longrightarrow> is_feature_a_set xs = is_feature_a_set ys"
proof -
  assume h: "mset xs = mset ys"
  have "set xs = set ys" using h by (rule mset_eq_setD)
  moreover have "length xs = length ys" using h by (rule mset_eq_length)
  ultimately show ?thesis by (simp only: is_feature_a_set_def)
qed

theorem is_feature_a_set_permutation_witness:
  "mset [''red'', ''blue'', ''red''] = mset [''red'', ''red'', ''blue'']
   \<and> is_feature_a_set [''red'', ''blue'', ''red''] = is_feature_a_set [''red'', ''red'', ''blue'']"
proof -
  have h: "mset [''red'', ''blue'', ''red''] = mset [''red'', ''red'', ''blue'']" by simp
  show ?thesis using h is_feature_a_set_permutation [OF h] by blast
qed

section \<open>Properties of cards\<close>

lemma compatible_set_eq:
  "compatible c x = (set (get_feature_names c) = set (other_names x))"
proof -
  have fin: "finite (symmetric_difference (set (get_feature_names c)) (set (other_names x)))"
    by (simp add: symmetric_difference_def)
  have "compatible c x =
          (card (symmetric_difference (set (get_feature_names c)) (set (other_names x))) = 0)"
    by (simp add: compatible_def other_names_def)
  also have "\<dots> = (symmetric_difference (set (get_feature_names c)) (set (other_names x)) = {})"
    using fin by simp
  also have "\<dots> = (set (get_feature_names c) = set (other_names x))"
    by (auto simp: symmetric_difference_def)
  finally show ?thesis .
qed

text \<open>
  Claim C8. \<open>compatible\<close>, against a card or against a bare collection of feature names, is
  true exactly when the symmetric difference of the two sets of feature names is empty, that
  is when the two sets are equal. The feature names of a card are the keys of its
  dictionary. A strict subset or superset of names is incompatible, and the feature values
  play no part.
\<close>

theorem compatible_iff_same_names:
  "(compatible (Card kvs) (IsCard (Card kvs')) \<longleftrightarrow>
      (fst ` set kvs - fst ` set kvs') \<union> (fst ` set kvs' - fst ` set kvs) = {})
   \<and> (compatible (Card kvs) (IsFeatures fs) \<longleftrightarrow>
      (fst ` set kvs - set fs) \<union> (set fs - fst ` set kvs) = {})
   \<and> (compatible (Card kvs) (IsCard (Card kvs')) \<longleftrightarrow> fst ` set kvs = fst ` set kvs')
   \<and> (compatible (Card kvs) (IsFeatures fs) \<longleftrightarrow> fst ` set kvs = set fs)
   \<and> (fst ` set kvs \<subset> fst ` set kvs' \<longrightarrow>
        \<not> compatible (Card kvs) (IsCard (Card kvs'))
        \<and> \<not> compatible (Card kvs') (IsCard (Card kvs)))
   \<and> (fst ` set kvs \<subset> set fs \<longrightarrow> \<not> compatible (Card kvs) (IsFeatures fs))
   \<and> (set fs \<subset> fst ` set kvs \<longrightarrow> \<not> compatible (Card kvs) (IsFeatures fs))
   \<and> (fst ` set kvs = fst ` set kvs'' \<longrightarrow>
        compatible (Card kvs) x = compatible (Card kvs'') x
        \<and> compatible c (IsCard (Card kvs)) = compatible c (IsCard (Card kvs'')))"
proof -
  have a: "compatible (Card kvs) (IsCard (Card kvs')) \<longleftrightarrow> fst ` set kvs = fst ` set kvs'"
    by (simp add: compatible_set_eq other_names_def get_feature_names_def)
  have a': "compatible (Card kvs') (IsCard (Card kvs)) \<longleftrightarrow> fst ` set kvs' = fst ` set kvs"
    by (simp add: compatible_set_eq other_names_def get_feature_names_def)
  have b: "compatible (Card kvs) (IsFeatures fs) \<longleftrightarrow> fst ` set kvs = set fs"
    by (simp add: compatible_set_eq other_names_def get_feature_names_def)
  have s: "\<And>A B :: string set. ((A - B) \<union> (B - A) = {}) = (A = B)"
    by auto
  have v: "fst ` set kvs = fst ` set kvs'' \<longrightarrow>
        compatible (Card kvs) x = compatible (Card kvs'') x
        \<and> compatible c (IsCard (Card kvs)) = compatible c (IsCard (Card kvs''))"
    by (simp add: compatible_set_eq other_names_def get_feature_names_def)
  from a a' b v show ?thesis unfolding s by blast
qed

theorem compatible_iff_same_names_witness:
  "compatible (Card [(''Color'', ''purple''), (''Number'', ''2''), (''Shape'', ''square''), (''Fill'', ''empty'')])
      (IsCard (Card [(''Color'', ''blue''), (''Number'', ''1''), (''Shape'', ''circle''), (''Fill'', ''lines'')]))
   \<and> fst ` set [(''Color'', ''teal''), (''Direction'', ''south''), (''Polarity'', ''positive'')]
       \<subset> fst ` set [(''Color'', ''teal''), (''Direction'', ''south''), (''Polarity'', ''positive''),
                      (''Temperature'', ''hot'')]
   \<and> \<not> compatible (Card [(''Color'', ''teal''), (''Direction'', ''south''), (''Polarity'', ''positive'')])
         (IsCard (Card [(''Color'', ''teal''), (''Direction'', ''south''), (''Polarity'', ''positive''),
                        (''Temperature'', ''hot'')]))
   \<and> \<not> compatible (Card [(''Color'', ''teal''), (''Direction'', ''south''), (''Polarity'', ''positive''),
                        (''Temperature'', ''hot'')])
         (IsCard (Card [(''Color'', ''teal''), (''Direction'', ''south''), (''Polarity'', ''positive'')]))
   \<and> \<not> compatible (Card [(''Color'', ''red'')]) (IsCard (Card [(''Shape'', ''oval'')]))
   \<and> compatible (Card [(''Color'', ''purple''), (''Number'', ''2''), (''Shape'', ''square''), (''Fill'', ''empty'')])
         (IsFeatures [''Color'', ''Number'', ''Shape'', ''Fill''])
   \<and> \<not> compatible (Card [(''Color'', ''purple''), (''Number'', ''2''), (''Shape'', ''square''), (''Fill'', ''empty'')])
         (IsFeatures [''Color'', ''Number'', ''Shape''])"
proof -
  let ?A = "[(''Color'', ''purple''), (''Number'', ''2''), (''Shape'', ''square''), (''Fill'', ''empty'')]"
  let ?B = "[(''Color'', ''blue''), (''Number'', ''1''), (''Shape'', ''circle''), (''Fill'', ''lines'')]"
  let ?D = "[(''Color'', ''teal''), (''Direction'', ''south''), (''Polarity'', ''positive'')]"
  let ?E = "[(''Color'', ''teal''), (''Direction'', ''south''), (''Polarity'', ''positive''),
             (''Temperature'', ''hot'')]"
  have ab: "fst ` set ?A = fst ` set ?B" by code_simp
  have de: "fst ` set ?D \<subset> fst ` set ?E" by code_simp
  have cs: "fst ` set [(''Color'', ''red'')] \<noteq> fst ` set [(''Shape'', ''oval'')]" by code_simp
  have af: "fst ` set ?A = set [''Color'', ''Number'', ''Shape'', ''Fill'']" by code_simp
  have ag: "set [''Color'', ''Number'', ''Shape''] \<subset> fst ` set ?A" by code_simp
  have p1: "compatible (Card ?A) (IsCard (Card ?B))"
    using compatible_iff_same_names
      [of ?A ?B, THEN conjunct2, THEN conjunct2, THEN conjunct1] ab
    by (rule iffD2)
  have p2: "\<not> compatible (Card ?D) (IsCard (Card ?E)) \<and> \<not> compatible (Card ?E) (IsCard (Card ?D))"
    using compatible_iff_same_names
      [of ?D ?E, THEN conjunct2, THEN conjunct2, THEN conjunct2, THEN conjunct2, THEN conjunct1] de
    by (rule mp)
  from p2 have p2a: "\<not> compatible (Card ?D) (IsCard (Card ?E))" by (rule conjunct1)
  from p2 have p2b: "\<not> compatible (Card ?E) (IsCard (Card ?D))" by (rule conjunct2)
  have p3: "\<not> compatible (Card [(''Color'', ''red'')]) (IsCard (Card [(''Shape'', ''oval'')]))"
  proof
    assume "compatible (Card [(''Color'', ''red'')]) (IsCard (Card [(''Shape'', ''oval'')]))"
    with compatible_iff_same_names
      [of "[(''Color'', ''red'')]" "[(''Shape'', ''oval'')]",
       THEN conjunct2, THEN conjunct2, THEN conjunct1]
    have "fst ` set [(''Color'', ''red'')] = fst ` set [(''Shape'', ''oval'')]" by (rule iffD1)
    with cs show False by (rule notE)
  qed
  have p4: "compatible (Card ?A) (IsFeatures [''Color'', ''Number'', ''Shape'', ''Fill''])"
    using compatible_iff_same_names
      [of ?A _ "[''Color'', ''Number'', ''Shape'', ''Fill'']",
       THEN conjunct2, THEN conjunct2, THEN conjunct2, THEN conjunct1] af
    by (rule iffD2)
  have p5: "\<not> compatible (Card ?A) (IsFeatures [''Color'', ''Number'', ''Shape''])"
    using compatible_iff_same_names
      [of ?A _ "[''Color'', ''Number'', ''Shape'']",
       THEN conjunct2, THEN conjunct2, THEN conjunct2, THEN conjunct2, THEN conjunct2,
       THEN conjunct2, THEN conjunct1] ag
    by (rule mp)
  show ?thesis by (intro conjI) (rule p1 de p2a p2b p3 p4 p5)+
qed

lemma getitem_key: "k \<in> set (map fst d) \<Longrightarrow> \<exists>v. getitem d k = Inr v \<and> map_of d k = Some v"
  by (cases "map_of d k") (auto simp: getitem_def map_of_eq_None_iff)

lemma eq_loop_spec:
  assumes "set names \<subseteq> set (get_feature_names a)" "set names \<subseteq> set (get_feature_names b)"
  shows "eq_loop names a b =
           Inr (\<forall>feat\<in>set names. map_of (Card.features a) feat = map_of (Card.features b) feat)"
  using assms
proof (induction names)
  case Nil
  show ?case by simp
next
  case (Cons feat rest)
  from Cons.prems obtain v1 where v1: "getitem (Card.features a) feat = Inr v1"
      "map_of (Card.features a) feat = Some v1"
    using getitem_key [of feat "Card.features a"] by (auto simp: get_feature_names_def)
  from Cons.prems obtain v2 where v2: "getitem (Card.features b) feat = Inr v2"
      "map_of (Card.features b) feat = Some v2"
    using getitem_key [of feat "Card.features b"] by (auto simp: get_feature_names_def)
  from Cons.prems have ih: "eq_loop rest a b =
      Inr (\<forall>feat\<in>set rest. map_of (Card.features a) feat = map_of (Card.features b) feat)"
    by (intro Cons.IH) auto
  have "eq_loop (feat # rest) a b = (if v1 \<noteq> v2 then Inr False else eq_loop rest a b)"
    using v1(1) v2(1) by simp
  also have "\<dots> = Inr (v1 = v2 \<and>
      (\<forall>feat\<in>set rest. map_of (Card.features a) feat = map_of (Card.features b) feat))"
    using ih by simp
  also have "(v1 = v2 \<and>
      (\<forall>feat\<in>set rest. map_of (Card.features a) feat = map_of (Card.features b) feat)) =
      (\<forall>feat\<in>set (feat # rest). map_of (Card.features a) feat = map_of (Card.features b) feat)"
    using v1(2) v2(2) by simp
  finally show ?case .
qed

text \<open>
  Claim C7. \<open>Card.__eq__\<close> returns \<open>False\<close> for cards that are not compatible, whatever their
  values; for compatible cards it returns whether every feature name has the same value in
  both, and it raises nothing. A card equals itself.
\<close>

theorem Card_eq_spec:
  "(\<not> compatible a (IsCard b) \<longrightarrow> Card_eq a b = Inr False)
   \<and> (compatible a (IsCard b) \<longrightarrow>
        Card_eq a b =
          Inr (\<forall>feat\<in>set (get_feature_names a).
                 map_of (Card.features a) feat = map_of (Card.features b) feat))
   \<and> Card_eq a a = Inr True"
proof -
  have n: "\<not> compatible a (IsCard b) \<longrightarrow> Card_eq a b = Inr False"
    by (simp add: Card_eq_def)
  have y: "compatible a (IsCard b) \<longrightarrow>
        Card_eq a b =
          Inr (\<forall>feat\<in>set (get_feature_names a).
                 map_of (Card.features a) feat = map_of (Card.features b) feat)"
  proof
    assume c: "compatible a (IsCard b)"
    then have "set (get_feature_names a) = set (get_feature_names b)"
      by (simp add: compatible_set_eq other_names_def)
    then show "Card_eq a b =
          Inr (\<forall>feat\<in>set (get_feature_names a).
                 map_of (Card.features a) feat = map_of (Card.features b) feat)"
      using c by (simp add: Card_eq_def eq_loop_spec)
  qed
  have r: "Card_eq a a = Inr True"
    by (simp add: Card_eq_def compatible_set_eq other_names_def eq_loop_spec)
  from n y r show ?thesis by blast
qed

theorem Card_eq_spec_witness:
  "\<not> compatible (Card [(''Color'', ''teal''), (''Direction'', ''south'')])
       (IsCard (Card [(''Color'', ''teal''), (''Direction'', ''south''), (''Temperature'', ''hot'')]))
   \<and> Card_eq (Card [(''Color'', ''teal''), (''Direction'', ''south'')])
       (Card [(''Color'', ''teal''), (''Direction'', ''south''), (''Temperature'', ''hot'')])
     = Inr False"
proof -
  have h: "\<not> compatible (Card [(''Color'', ''teal''), (''Direction'', ''south'')])
       (IsCard (Card [(''Color'', ''teal''), (''Direction'', ''south''), (''Temperature'', ''hot'')]))"
    by code_simp
  from Card_eq_spec
    [of "Card [(''Color'', ''teal''), (''Direction'', ''south'')]"
        "Card [(''Color'', ''teal''), (''Direction'', ''south''), (''Temperature'', ''hot'')]"]
    h show ?thesis by blast
qed

section \<open>Properties of the combination generator\<close>

lemma generate_card_combos_Nil:
  "generate_card_combos [] n = (if n = 0 then [[]] else [])"
  by (simp add: generate_card_combos.simps)

lemma generate_card_combos_Cons:
  "generate_card_combos (x # xs) n =
     (if n = 0 then [[]]
      else map ((#) x) (generate_card_combos xs (n - 1)) @ generate_card_combos xs n)"
proof (cases "n = 0")
  case True
  then show ?thesis by (simp add: generate_card_combos.simps)
next
  case False
  have upt: "[0..<length (x # xs)] = 0 # map Suc [0..<length xs]"
    by (simp add: upt_conv_Cons map_Suc_upt del: upt_Suc)
  have "generate_card_combos (x # xs) n =
          concat (map (\<lambda>i. map (\<lambda>item. [(x # xs) ! i] @ item)
                                (generate_card_combos (drop (i + 1) (x # xs)) (n - 1)))
                      [0..<length (x # xs)])"
    using False by (subst generate_card_combos.simps) simp
  also have "\<dots> = map ((#) x) (generate_card_combos xs (n - 1)) @
          concat (map (\<lambda>i. map (\<lambda>item. [xs ! i] @ item)
                                (generate_card_combos (drop (i + 1) xs) (n - 1)))
                      [0..<length xs])"
    unfolding upt by (simp add: comp_def)
  also have "concat (map (\<lambda>i. map (\<lambda>item. [xs ! i] @ item)
                                (generate_card_combos (drop (i + 1) xs) (n - 1)))
                      [0..<length xs]) = generate_card_combos xs n"
    using False by (subst (2) generate_card_combos.simps) simp
  finally show ?thesis using False by simp
qed

text \<open>The generator yields the subsequences of the given length, in the order of \<open>subseqs\<close>.\<close>

lemma generate_card_combos_subseqs:
  "generate_card_combos xs n = filter (\<lambda>s. int (length s) = n) (subseqs xs)"
proof (induction xs arbitrary: n)
  case Nil
  show ?case by (auto simp: generate_card_combos_Nil)
next
  case (Cons x xs)
  have f: "filter (\<lambda>s. int (length s) = n) (map ((#) x) (subseqs xs)) =
           map ((#) x) (filter (\<lambda>s. int (length s) = n - 1) (subseqs xs))"
  proof -
    have e: "((\<lambda>s. int (length s) = n) \<circ> (#) x) = (\<lambda>s. int (length s) = n - 1)"
      by (auto simp: fun_eq_iff)
    show ?thesis by (simp only: filter_map e)
  qed
  have z: "filter (\<lambda>s. length s = 0) (subseqs ys) = [[]]" for ys :: "'a list"
    by (induction ys) (auto simp: Let_def filter_map comp_def)
  show ?case
  proof (cases "n = 0")
    case True
    have "filter (\<lambda>s. int (length s) = 0) (subseqs (x # xs)) = [[]]"
      using z [of "x # xs"] by simp
    then show ?thesis using True by (simp add: generate_card_combos_Cons)
  next
    case False
    then show ?thesis
      by (simp add: generate_card_combos_Cons Let_def Cons.IH f)
  qed
qed

lemma generate_card_combos_length:
  "length (generate_card_combos xs n) = (if n < 0 then 0 else length xs choose nat n)"
proof (induction xs arbitrary: n)
  case Nil
  show ?case by (auto simp: generate_card_combos_Nil)
next
  case (Cons x xs)
  show ?case
  proof (cases "n \<le> 0")
    case True
    then show ?thesis by (auto simp: generate_card_combos_Cons Cons.IH)
  next
    case False
    then obtain k where k: "nat n = Suc k" "nat (n - 1) = k"
      by (metis Suc_nat_eq_nat_zadd1 add.commute diff_add_cancel not_le zle_diff1_eq zless_imp_add1_zle add_diff_cancel_left' nat_int not_less)
    with False show ?thesis
      by (simp add: generate_card_combos_Cons Cons.IH)
  qed
qed

lemma generate_card_combos_elem:
  "s \<in> set (generate_card_combos xs n) \<Longrightarrow>
     0 \<le> n \<and> length s = nat n \<and> set s \<subseteq> set xs \<and> (sorted_wrt R xs \<longrightarrow> sorted_wrt R s)"
proof (induction xs arbitrary: n s)
  case Nil
  then show ?case by (auto simp: generate_card_combos_Nil split: if_splits)
next
  case (Cons x xs)
  show ?case
  proof (cases "n = 0")
    case True
    with Cons.prems show ?thesis by (simp add: generate_card_combos_Cons)
  next
    case False
    with Cons.prems consider
      (hd) t where "s = x # t" "t \<in> set (generate_card_combos xs (n - 1))"
      | (tl) "s \<in> set (generate_card_combos xs n)"
      by (auto simp: generate_card_combos_Cons)
    then show ?thesis
    proof cases
      case hd
      from Cons.IH [OF hd(2)] hd(1) show ?thesis by auto
    next
      case tl
      from Cons.IH [OF tl] show ?thesis by auto
    qed
  qed
qed

lemma generate_card_combos_lex:
  fixes xs :: "('a::order) list"
  assumes "sorted_wrt (<) xs"
  shows "sorted_wrt lex_less (generate_card_combos xs n)"
  using assms
proof (induction xs arbitrary: n)
  case Nil
  show ?case by (simp add: generate_card_combos_Nil)
next
  case (Cons x xs)
  show ?case
  proof (cases "n = 0")
    case True
    then show ?thesis by (simp add: generate_card_combos_Cons)
  next
    case False
    from Cons.prems have sx: "sorted_wrt (<) xs" and lt: "\<forall>y\<in>set xs. x < y" by auto
    have a: "sorted_wrt lex_less (map ((#) x) (generate_card_combos xs (n - 1)))"
      using Cons.IH [OF sx, of "n - 1"] by (simp add: sorted_wrt_map)
    have b: "sorted_wrt lex_less (generate_card_combos xs n)"
      using Cons.IH [OF sx] .
    have c: "lex_less (x # s) t"
      if "s \<in> set (generate_card_combos xs (n - 1))" "t \<in> set (generate_card_combos xs n)" for s t
    proof -
      from generate_card_combos_elem [OF that(2), of "(<)"] False
      have "length t = nat n" "0 < n" "set t \<subseteq> set xs" by auto
      then obtain y t' where t: "t = y # t'" "y \<in> set xs" by (cases t) auto
      with lt show ?thesis by simp
    qed
    show ?thesis using False a b c
      by (auto simp: generate_card_combos_Cons sorted_wrt_append)
  qed
qed

lemma strictly_sorted_in_subseqs:
  fixes xs :: "('a::linorder) list"
  shows "sorted_wrt (<) xs \<Longrightarrow> sorted_wrt (<) s \<Longrightarrow> set s \<subseteq> set xs \<Longrightarrow> s \<in> set (subseqs xs)"
proof (induction xs arbitrary: s)
  case Nil
  then show ?case by simp
next
  case (Cons x xs)
  have nil: "[] \<in> set (subseqs xs)" by (induction xs) (auto simp: Let_def)
  from Cons.prems(1) have sx: "sorted_wrt (<) xs" and lt: "\<forall>y\<in>set xs. x < y" by auto
  show ?case
  proof (cases s)
    case Nil
    then show ?thesis using nil by (simp add: Let_def)
  next
    case (Cons y t)
    with Cons.prems(2) have st: "sorted_wrt (<) t" and yt: "\<forall>z\<in>set t. y < z" by auto
    show ?thesis
    proof (cases "y = x")
      case True
      with yt Cons.prems(3) Cons have "set t \<subseteq> set xs" by auto
      from Cons.IH [OF sx st this] True Cons show ?thesis by (simp add: Let_def)
    next
      case False
      with Cons.prems(3) Cons have yx: "y \<in> set xs" by auto
      with lt have "x < y" by simp
      with yt have "\<forall>z\<in>set t. x < z" by auto
      with Cons.prems(3) Cons yx have "set s \<subseteq> set xs" by auto
      from Cons.IH [OF sx Cons.prems(2) this] show ?thesis by (simp add: Let_def)
    qed
  qed
qed

text \<open>
  Claim C2. For \<open>0 \<le> n \<le> m\<close> the generator over the positions \<open>0, ..., m - 1\<close> yields
  \<open>m choose n\<close> selections; each is a strictly increasing sequence of \<open>n\<close> positions below
  \<open>m\<close>, every such sequence is yielded, and the selections come in strictly increasing
  lexicographic order. For size 0 it yields the empty selection and nothing else.
\<close>

theorem generate_card_combos_positions:
  assumes "0 \<le> n" and "n \<le> int m"
  shows "length (generate_card_combos [0..<m] n) = m choose nat n
         \<and> (\<forall>s\<in>set (generate_card_combos [0..<m] n).
               length s = nat n \<and> sorted_wrt (<) s \<and> set s \<subseteq> {0..<m})
         \<and> (\<forall>s. length s = nat n \<and> sorted_wrt (<) s \<and> set s \<subseteq> {0..<m}
               \<longrightarrow> s \<in> set (generate_card_combos [0..<m] n))
         \<and> sorted_wrt lex_less (generate_card_combos [0..<m] n)
         \<and> generate_card_combos [0..<m] 0 = [[]]"
proof -
  have so: "sorted_wrt (<) [0..<m]" by (simp add: sorted_wrt_upt)
  have len: "length (generate_card_combos [0..<m] n) = m choose nat n"
    using assms by (simp add: generate_card_combos_length)
  have el: "\<forall>s\<in>set (generate_card_combos [0..<m] n).
               length s = nat n \<and> sorted_wrt (<) s \<and> set s \<subseteq> {0..<m}"
  proof
    fix s assume "s \<in> set (generate_card_combos [0..<m] n)"
    from generate_card_combos_elem [OF this, of "(<)"] so
    show "length s = nat n \<and> sorted_wrt (<) s \<and> set s \<subseteq> {0..<m}" by simp
  qed
  have all: "\<forall>s. length s = nat n \<and> sorted_wrt (<) s \<and> set s \<subseteq> {0..<m}
               \<longrightarrow> s \<in> set (generate_card_combos [0..<m] n)"
  proof (intro allI impI)
    fix s assume s: "length s = nat n \<and> sorted_wrt (<) s \<and> set s \<subseteq> {0..<m}"
    then have "s \<in> set (subseqs [0..<m])"
      using strictly_sorted_in_subseqs [OF so, of s] by simp
    with s assms(1) show "s \<in> set (generate_card_combos [0..<m] n)"
      by (simp add: generate_card_combos_subseqs)
  qed
  have lx: "sorted_wrt lex_less (generate_card_combos [0..<m] n)"
    using so by (rule generate_card_combos_lex)
  have z: "generate_card_combos [0..<m] 0 = [[]]"
    by (simp add: generate_card_combos.simps)
  from len el all lx z show ?thesis by blast
qed

theorem generate_card_combos_positions_witness:
  "(0::int) \<le> 2 \<and> (2::int) \<le> int 4
   \<and> generate_card_combos [0..<4] 2 = [[0, 1], [0, 2], [0, 3], [1, 2], [1, 3], [2, 3]]
   \<and> length (generate_card_combos [0..<4] 2) = 4 choose nat 2"
proof -
  have a: "(0::int) \<le> 2" by simp
  have b: "(2::int) \<le> int 4" by simp
  have c: "generate_card_combos [0..<4] 2 = [[0, 1], [0, 2], [0, 3], [1, 2], [1, 3], [2, 3]]"
    by code_simp
  from generate_card_combos_positions [OF a b]
  have "length (generate_card_combos [0..<4] 2) = 4 choose nat 2" by (rule conjunct1)
  with a b c show ?thesis by blast
qed

section \<open>Properties of the group matcher\<close>

lemma comprehension_Inr:
  "\<forall>x\<in>set xs. f x = Inr (g x) \<Longrightarrow> comprehension f xs = Inr (map g xs)"
  by (induction xs) auto

lemma column_total:
  assumes "\<forall>c\<in>set cs. feat \<in> set (get_feature_names c)"
  shows "column feat cs = Inr (map (\<lambda>c. the (map_of (Card.features c) feat)) cs)"
  unfolding column_def
proof (rule comprehension_Inr, rule ballI)
  fix c assume "c \<in> set cs"
  with assms have "feat \<in> set (map fst (Card.features c))" by (simp add: get_feature_names_def)
  from getitem_key [OF this]
  show "getitem (Card.features c) feat = Inr (the (map_of (Card.features c) feat))" by auto
qed

lemma is_feature_a_set_cases:
  "is_feature_a_set vs = None \<or> is_feature_a_set vs = Some SAME \<or> is_feature_a_set vs = Some DIFFERENT"
  by (simp add: is_feature_a_set_def Let_def)

lemma is_feature_a_set_nonempty: "is_feature_a_set vs = Some t \<Longrightarrow> t \<noteq> []"
  using is_feature_a_set_cases [of vs] by (auto simp: SAME_def DIFFERENT_def)

lemma is_set_loop_spec:
  assumes "\<forall>feat\<in>set names. column feat cs = Inr (col feat)"
  shows "is_set_loop names cs st =
           (if \<exists>feat\<in>set names. is_feature_a_set (col feat) = None then Inr None
            else Inr (Some (fold (\<lambda>feat. AList.update feat (the (is_feature_a_set (col feat)))) names st)))"
  using assms
proof (induction names arbitrary: st)
  case Nil
  show ?case by simp
next
  case (Cons feat rest)
  from Cons.prems have c: "column feat cs = Inr (col feat)" by simp
  from Cons.prems have r: "\<forall>feat\<in>set rest. column feat cs = Inr (col feat)" by simp
  show ?case
  proof (cases "is_feature_a_set (col feat)")
    case None
    with c show ?thesis by simp
  next
    case (Some t)
    then have "t \<noteq> []" by (rule is_feature_a_set_nonempty)
    with c Some Cons.IH [OF r] show ?thesis by simp
  qed
qed

lemma fold_update_keys:
  "fst ` set (fold (\<lambda>k. AList.update k (f k)) ks st) = set ks \<union> fst ` set st"
  by (induction ks arbitrary: st) (auto simp: dom_update)

lemma fold_update_map_of:
  "map_of (fold (\<lambda>k. AList.update k (f k)) ks st) k =
     (if k \<in> set ks then Some (f k) else map_of st k)"
  by (induction ks arbitrary: st) (auto simp: update_conv')

text \<open>
  Claim C5. On a group of pairwise compatible cards \<open>is_set\<close> raises nothing. The empty group
  gets the failure sentinel \<open>False\<close>. A non-empty group is rejected exactly when the column
  of some feature is classified \<open>False\<close>; otherwise the result is a dictionary whose keys
  are the feature names of the cards and which gives each name the classification of its
  column, \<open>SAME\<close> or \<open>DIFFERENT\<close>.
\<close>

theorem is_set_spec:
  assumes "\<forall>a\<in>set cs. \<forall>b\<in>set cs. compatible a (IsCard b)"
  shows "is_set [] = Inr None
     \<and> (\<exists>r. is_set cs = Inr r)
     \<and> (cs \<noteq> [] \<longrightarrow>
          (\<forall>feat\<in>set (get_feature_names (cs ! 0)). \<exists>vals. column feat cs = Inr vals))
     \<and> (is_set cs = Inr None \<longleftrightarrow>
          cs = [] \<or> (\<exists>feat\<in>set (get_feature_names (cs ! 0)).
                       \<exists>vals. column feat cs = Inr vals \<and> is_feature_a_set vals = None))
     \<and> (\<forall>m. is_set cs = Inr (Some m) \<longrightarrow>
          cs \<noteq> []
          \<and> (\<forall>c\<in>set cs. fst ` set m = set (get_feature_names c))
          \<and> (\<forall>feat\<in>set (get_feature_names (cs ! 0)).
                \<exists>vals. column feat cs = Inr vals
                  \<and> map_of m feat = is_feature_a_set vals
                  \<and> (map_of m feat = Some SAME \<or> map_of m feat = Some DIFFERENT)))"
proof (cases "cs = []")
  case True
  then show ?thesis by (simp add: is_set_def)
next
  case False
  define names where "names = get_feature_names (cs ! 0)"
  define col where "col = (\<lambda>feat. map (\<lambda>c. the (map_of (Card.features c) feat)) cs)"
  define cls where "cls = (\<lambda>feat. is_feature_a_set (col feat))"
  from False have c0: "cs ! 0 \<in> set cs" by simp
  have same: "set (get_feature_names c) = set names" if "c \<in> set cs" for c
  proof -
    from assms c0 that have "compatible c (IsCard (cs ! 0))" by blast
    then show ?thesis by (simp add: compatible_set_eq other_names_def names_def)
  qed
  have cols: "\<forall>feat\<in>set names. column feat cs = Inr (col feat)"
  proof
    fix feat assume "feat \<in> set names"
    with same have "\<forall>c\<in>set cs. feat \<in> set (get_feature_names c)" by simp
    then show "column feat cs = Inr (col feat)" unfolding col_def by (rule column_total)
  qed
  have e0: "is_set [] = Inr None" by (simp add: is_set_def)
  have run: "is_set cs =
           (if \<exists>feat\<in>set names. cls feat = None then Inr None
            else Inr (Some (fold (\<lambda>feat. AList.update feat (the (cls feat))) names [])))"
    using False is_set_loop_spec [OF cols, of "[]"] by (simp add: is_set_def names_def cls_def)
  have total: "\<exists>r. is_set cs = Inr r" using run by simp
  have colex: "\<forall>feat\<in>set names. \<exists>vals. column feat cs = Inr vals" using cols by blast
  have rej: "is_set cs = Inr None \<longleftrightarrow>
          cs = [] \<or> (\<exists>feat\<in>set names.
                       \<exists>vals. column feat cs = Inr vals \<and> is_feature_a_set vals = None)"
  proof
    assume "is_set cs = Inr None"
    with run obtain feat where "feat \<in> set names" "cls feat = None"
      by (auto split: if_splits)
    with cols show "cs = [] \<or> (\<exists>feat\<in>set names.
                       \<exists>vals. column feat cs = Inr vals \<and> is_feature_a_set vals = None)"
      unfolding cls_def by blast
  next
    assume "cs = [] \<or> (\<exists>feat\<in>set names.
                       \<exists>vals. column feat cs = Inr vals \<and> is_feature_a_set vals = None)"
    with False obtain feat vals where f: "feat \<in> set names" "column feat cs = Inr vals"
        "is_feature_a_set vals = None" by blast
    with cols have "vals = col feat" by auto
    with f have "\<exists>feat\<in>set names. cls feat = None" unfolding cls_def by blast
    with run show "is_set cs = Inr None" by simp
  qed
  have acc: "\<forall>m. is_set cs = Inr (Some m) \<longrightarrow>
          cs \<noteq> []
          \<and> (\<forall>c\<in>set cs. fst ` set m = set (get_feature_names c))
          \<and> (\<forall>feat\<in>set names.
                \<exists>vals. column feat cs = Inr vals
                  \<and> map_of m feat = is_feature_a_set vals
                  \<and> (map_of m feat = Some SAME \<or> map_of m feat = Some DIFFERENT))"
  proof (intro allI impI)
    fix m assume m: "is_set cs = Inr (Some m)"
    with run have ok: "\<forall>feat\<in>set names. cls feat \<noteq> None"
      and md: "m = fold (\<lambda>feat. AList.update feat (the (cls feat))) names []"
      by (auto split: if_splits)
    have keys: "fst ` set m = set names" unfolding md by (simp add: fold_update_keys)
    have vals: "\<exists>vals. column feat cs = Inr vals
                  \<and> map_of m feat = is_feature_a_set vals
                  \<and> (map_of m feat = Some SAME \<or> map_of m feat = Some DIFFERENT)"
      if "feat \<in> set names" for feat
    proof -
      from that ok obtain t where t: "cls feat = Some t" by auto
      from that have mf: "map_of m feat = Some t"
        unfolding md by (simp add: fold_update_map_of t)
      from t is_feature_a_set_cases [of "col feat"] have "t = SAME \<or> t = DIFFERENT"
        unfolding cls_def by auto
      with that cols mf t show ?thesis unfolding cls_def by auto
    qed
    from False keys same vals show "cs \<noteq> []
          \<and> (\<forall>c\<in>set cs. fst ` set m = set (get_feature_names c))
          \<and> (\<forall>feat\<in>set names.
                \<exists>vals. column feat cs = Inr vals
                  \<and> map_of m feat = is_feature_a_set vals
                  \<and> (map_of m feat = Some SAME \<or> map_of m feat = Some DIFFERENT))"
      by simp
  qed
  from e0 total colex rej acc show ?thesis unfolding names_def by blast
qed


theorem is_set_spec_witness:
  "list_all (\<lambda>a. list_all (\<lambda>b. compatible a (IsCard b))
       [Card [(''Color'', ''purple''), (''Number'', ''1''), (''Shape'', ''square''), (''Fill'', ''solid'')],
        Card [(''Color'', ''green''), (''Number'', ''2''), (''Shape'', ''square''), (''Fill'', ''solid'')],
        Card [(''Color'', ''red''), (''Number'', ''3''), (''Shape'', ''square''), (''Fill'', ''solid'')]])
     [Card [(''Color'', ''purple''), (''Number'', ''1''), (''Shape'', ''square''), (''Fill'', ''solid'')],
      Card [(''Color'', ''green''), (''Number'', ''2''), (''Shape'', ''square''), (''Fill'', ''solid'')],
      Card [(''Color'', ''red''), (''Number'', ''3''), (''Shape'', ''square''), (''Fill'', ''solid'')]]
   \<and> is_set [Card [(''Color'', ''purple''), (''Number'', ''1''), (''Shape'', ''square''), (''Fill'', ''solid'')],
             Card [(''Color'', ''green''), (''Number'', ''2''), (''Shape'', ''square''), (''Fill'', ''solid'')],
             Card [(''Color'', ''red''), (''Number'', ''3''), (''Shape'', ''square''), (''Fill'', ''solid'')]]
      = Inr (Some [(''Color'', ''Different''), (''Number'', ''Different''),
                   (''Shape'', ''Same''), (''Fill'', ''Same'')])
   \<and> (\<exists>r. is_set [Card [(''Color'', ''purple''), (''Number'', ''1''), (''Shape'', ''square''), (''Fill'', ''solid'')],
             Card [(''Color'', ''green''), (''Number'', ''2''), (''Shape'', ''square''), (''Fill'', ''solid'')],
             Card [(''Color'', ''red''), (''Number'', ''3''), (''Shape'', ''square''), (''Fill'', ''solid'')]]
      = Inr r)
   \<and> is_set [Card [(''Color'', ''purple''), (''Number'', ''1''), (''Shape'', ''square''), (''Fill'', ''solid'')],
             Card [(''Color'', ''purple''), (''Number'', ''2''), (''Shape'', ''square''), (''Fill'', ''solid'')],
             Card [(''Color'', ''red''), (''Number'', ''3''), (''Shape'', ''square''), (''Fill'', ''solid'')]]
      = Inr None
   \<and> is_set [] = Inr None"
proof -
  let ?g = "[Card [(''Color'', ''purple''), (''Number'', ''1''), (''Shape'', ''square''), (''Fill'', ''solid'')],
             Card [(''Color'', ''green''), (''Number'', ''2''), (''Shape'', ''square''), (''Fill'', ''solid'')],
             Card [(''Color'', ''red''), (''Number'', ''3''), (''Shape'', ''square''), (''Fill'', ''solid'')]]"
  have l: "list_all (\<lambda>a. list_all (\<lambda>b. compatible a (IsCard b)) ?g) ?g" by code_simp
  then have h: "\<forall>a\<in>set ?g. \<forall>b\<in>set ?g. compatible a (IsCard b)"
    by (simp only: list_all_iff)
  have a: "is_set ?g = Inr (Some [(''Color'', ''Different''), (''Number'', ''Different''),
                   (''Shape'', ''Same''), (''Fill'', ''Same'')])" by code_simp
  have b: "is_set [Card [(''Color'', ''purple''), (''Number'', ''1''), (''Shape'', ''square''), (''Fill'', ''solid'')],
             Card [(''Color'', ''purple''), (''Number'', ''2''), (''Shape'', ''square''), (''Fill'', ''solid'')],
             Card [(''Color'', ''red''), (''Number'', ''3''), (''Shape'', ''square''), (''Fill'', ''solid'')]]
      = Inr None" by code_simp
  from is_set_spec [OF h] have e: "is_set [] = Inr None" and t: "\<exists>r. is_set ?g = Inr r"
    by blast+
  from l a t b e show ?thesis by blast
qed

section \<open>Properties of the deck\<close>

lemma split_tab_nonempty: "split_tab s \<noteq> []"
  by (induction s) (auto split: list.splits)

lemma fold_update_pairs_keys:
  "fst ` set (fold (\<lambda>(k, v) d. AList.update k v d) kvs d) = fst ` set kvs \<union> fst ` set d"
proof (induction kvs arbitrary: d)
  case Nil
  show ?case by simp
next
  case (Cons kv kvs)
  obtain k v where kv: "kv = (k, v)" by (cases kv)
  have "fst ` set (fold (\<lambda>(k, v) d. AList.update k v d) (kv # kvs) d) =
        fst ` set kvs \<union> fst ` set (AList.update k v d)"
    using Cons.IH [of "AList.update k v d"] by (simp add: kv)
  also have "\<dots> = fst ` set (kv # kvs) \<union> fst ` set d"
    by (simp add: dom_update kv)
  finally show ?case .
qed

lemma dict_zip_keys:
  "length ks = length vs \<Longrightarrow> set (get_feature_names (Card (dict_zip ks vs))) = set ks"
proof -
  assume l: "length ks = length vs"
  have "fst ` set (zip ks vs) = set (map fst (zip ks vs))" by simp
  also have "\<dots> = set ks" using l by simp
  finally show ?thesis
    by (simp add: get_feature_names_def dict_zip_def fold_update_pairs_keys)
qed

lemma load_card_inv:
  assumes "deck_inv d" "CardDeck.features d = Some fs" "length flds = length fs"
  shows "deck_inv (snd (load_card d fs flds)) \<and> CardDeck.cards (snd (load_card d fs flds)) \<noteq> None
         \<and> CardDeck.features (snd (load_card d fs flds)) = Some fs"
proof -
  from assms(1,2) obtain cs where cs: "CardDeck.cards d = Some cs"
      "\<forall>c\<in>set cs. set (get_feature_names c) = set fs" "fs \<noteq> []"
    by (auto simp: deck_inv_def)
  have k: "set (get_feature_names (Card (dict_zip fs flds))) = set fs"
    using assms(3) by (simp add: dict_zip_keys)
  obtain r fv where a: "add_values (dict_zip fs flds)
      (feature_values (d\<lparr>CardDeck.cards := Some (cs @ [Card (dict_zip fs flds)])\<rparr>)) = (r, fv)"
    by (cases "add_values (dict_zip fs flds)
      (feature_values (d\<lparr>CardDeck.cards := Some (cs @ [Card (dict_zip fs flds)])\<rparr>))") 
  have "snd (load_card d fs flds) =
      d\<lparr>CardDeck.cards := Some (cs @ [Card (dict_zip fs flds)]), feature_values := fv\<rparr>"
    using cs(1) a by (simp add: load_card_def Let_def)
  with cs k assms(2) show ?thesis by (simp add: deck_inv_def)
qed

lemma load_lines_inv:
  "deck_inv d \<Longrightarrow> CardDeck.cards d \<noteq> None \<Longrightarrow> deck_inv (snd (load_lines d file_lines))"
proof (induction file_lines arbitrary: d)
  case Nil
  then show ?case by simp
next
  case (Cons raw rest)
  define line where "line = strip raw"
  define flds where "flds = split_tab line"
  have hdr: "deck_inv (snd (load_lines (set_header d flds) rest))"
    if "CardDeck.features d = None"
  proof -
    from that Cons.prems have "CardDeck.cards d = Some []" by (auto simp: deck_inv_def)
    then have "deck_inv (set_header d flds)" "CardDeck.cards (set_header d flds) \<noteq> None"
      by (simp_all add: deck_inv_def set_header_def flds_def split_tab_nonempty)
    then show ?thesis by (rule Cons.IH)
  qed
  show ?case
  proof (cases "length line = 0 \<or> line ! 0 = CHR ''#''")
    case True
    show ?thesis
    proof (cases "comments d")
      case None
      with True Cons.prems show ?thesis by (simp add: line_def [symmetric])
    next
      case (Some cms)
      have "deck_inv (d\<lparr>comments := Some (cms @ [line])\<rparr>)"
          "CardDeck.cards (d\<lparr>comments := Some (cms @ [line])\<rparr>) \<noteq> None"
        using Cons.prems by (simp_all add: deck_inv_def)
      then have "deck_inv (snd (load_lines (d\<lparr>comments := Some (cms @ [line])\<rparr>) rest))"
        by (rule Cons.IH)
      with True Some show ?thesis by (simp add: line_def [symmetric])
    qed
  next
    case False
    show ?thesis
    proof (cases "CardDeck.features d")
      case None
      with False hdr show ?thesis by (simp add: line_def [symmetric] flds_def [symmetric])
    next
      case (Some fs)
      with Cons.prems have ne: "fs \<noteq> []" by (auto simp: deck_inv_def)
      show ?thesis
      proof (cases "length flds \<noteq> length fs")
        case True
        with False Some ne Cons.IH [OF Cons.prems] show ?thesis
          by (simp add: line_def [symmetric] flds_def [symmetric])
      next
        case eq: False
        then have l: "length flds = length fs" by simp
        obtain r d1 where lc: "load_card d fs flds = (r, d1)" by (cases "load_card d fs flds")
        from load_card_inv [OF Cons.prems(1) Some l] lc
        have d1: "deck_inv d1" "CardDeck.cards d1 \<noteq> None" by simp_all
        show ?thesis
        proof (cases r)
          case (Inl e)
          with False Some ne l lc d1 show ?thesis
            by (simp add: line_def [symmetric] flds_def [symmetric])
        next
          case (Inr u)
          with False Some ne l lc Cons.IH [OF d1] show ?thesis
            by (simp add: line_def [symmetric] flds_def [symmetric])
        qed
      qed
    qed
  qed
qed

lemma load_file_inv: "deck_inv (snd (load_file d file_lines))"
  unfolding load_file_def by (rule load_lines_inv) (simp_all add: deck_inv_def)

lemma add_card_inv: "deck_inv d \<Longrightarrow> deck_inv (snd (add_card d c))"
  by (auto simp: deck_inv_def add_card_def append_card_def compatible_set_eq other_names_def
      split: option.splits)

lemma solve_loop_frame:
  "CardDeck.features (snd (solve_loop d combos)) = CardDeck.features d
   \<and> CardDeck.cards (snd (solve_loop d combos)) = CardDeck.cards d"
  by (induction combos arbitrary: d) (auto split: sum.splits)

lemma solve_inv: "deck_inv d \<Longrightarrow> deck_inv (snd (solve d k))"
  by (auto simp: deck_inv_def solve_def Let_def solve_loop_frame split: option.splits sum.splits)

text \<open>Every deck built through the class satisfies \<open>deck_inv\<close>.\<close>

lemma reachable_inv: "reachable d \<Longrightarrow> deck_inv d"
proof (induction rule: reachable.induct)
  case reachable_new
  show ?case by (simp add: deck_inv_def new_deck_def)
next
  case (reachable_load d file_lines)
  show ?case by (rule load_file_inv)
next
  case (reachable_add d c)
  then show ?case by (simp add: add_card_inv)
next
  case (reachable_solve d setsize)
  then show ?case by (simp add: solve_inv)
qed

subsection \<open>\<open>add_card\<close>\<close>

text \<open>
  On a deck that has a schema and a list of cards, \<open>add_card\<close> appends a compatible card
  and returns \<open>True\<close>; it returns \<open>False\<close> and leaves the deck as it was for any other card.
\<close>

lemma add_card_spec:
  assumes "CardDeck.features d = Some fs" and "fs \<noteq> []" and "CardDeck.cards d = Some cs"
  shows "add_card d c =
           (if compatible c (IsFeatures fs) then (Inr True, d\<lparr>CardDeck.cards := Some (cs @ [c])\<rparr>)
            else (Inr False, d))"
  using assms by (simp add: add_card_def append_card_def)

lemma add_card_feature_values:
  "feature_values (snd (add_card d c)) = feature_values d"
  by (simp add: add_card_def append_card_def split: option.splits)

text \<open>
  Claim C1. \<open>add_card\<close> is to return a boolean and never raise, and to adopt the card's
  schema on a deck that has none yet. The deck that \<open>CardDeck()\<close> builds has
  \<open>features = None\<close>, and so has a deck loaded from a file without a header line: there
  \<open>len(self.features)\<close> raises \<open>TypeError\<close>, whatever the card, and nothing is adopted or
  appended.
\<close>

theorem add_card_raises_without_schema:
  "add_card new_deck c = (Inl TypeError, new_deck)
   \<and> fst (load_file new_deck []) = Inr ()
   \<and> fst (add_card (snd (load_file new_deck [])) c) = Inl TypeError"
  by (simp add: add_card_def new_deck_def load_file_def)

subsection \<open>\<open>load_file\<close> and the distinct values\<close>

lemma getitem_present:
  "k \<in> fst ` set d \<Longrightarrow> \<exists>v. getitem d k = Inr v \<and> map_of d k = Some v"
  using getitem_key [of k d] by simp

lemma add_values_spec:
  assumes "fst ` set kvs \<subseteq> fst ` set fv"
  shows "\<exists>fv'. add_values kvs fv = (Inr (), fv')
           \<and> fst ` set fv' = fst ` set fv
           \<and> (\<forall>feat seen. map_of fv feat = Some seen \<longrightarrow>
                 (\<exists>seen'. map_of fv' feat = Some seen' \<and> seen \<subseteq> seen'))
           \<and> (\<forall>(feat, v)\<in>set kvs. \<exists>seen'. map_of fv' feat = Some seen' \<and> v \<in> seen')"
  using assms
proof (induction kvs arbitrary: fv)
  case Nil
  show ?case by simp
next
  case (Cons kv rest)
  obtain feat v where kv: "kv = (feat, v)" by (cases kv)
  from Cons.prems kv have fk: "feat \<in> fst ` set fv" and rk: "fst ` set rest \<subseteq> fst ` set fv"
    by auto
  from getitem_present [OF fk] obtain seen where
    g: "getitem fv feat = Inr seen" and m: "map_of fv feat = Some seen" by blast
  define fv1 where "fv1 = (if v \<notin> seen then AList.update feat (insert v seen) fv else fv)"
  have step: "add_values (kv # rest) fv = add_values rest fv1"
    using g by (simp add: kv fv1_def)
  have k1: "fst ` set fv1 = fst ` set fv"
    using fk by (auto simp: fv1_def dom_update)
  have m1: "\<exists>s1. map_of fv1 k = Some s1 \<and> s \<subseteq> s1" if "map_of fv k = Some s" for k s
    using that m by (auto simp: fv1_def update_conv')
  have v1: "\<exists>s1. map_of fv1 feat = Some s1 \<and> v \<in> s1"
    using m by (auto simp: fv1_def update_conv')
  from rk k1 have "fst ` set rest \<subseteq> fst ` set fv1" by simp
  from Cons.IH [OF this] obtain fv' where
    r: "add_values rest fv1 = (Inr (), fv')"
    and k': "fst ` set fv' = fst ` set fv1"
    and mono: "\<forall>feat seen. map_of fv1 feat = Some seen \<longrightarrow>
                 (\<exists>seen'. map_of fv' feat = Some seen' \<and> seen \<subseteq> seen')"
    and rec: "\<forall>(feat, v)\<in>set rest. \<exists>seen'. map_of fv' feat = Some seen' \<and> v \<in> seen'"
    by blast
  have mono': "\<forall>k s. map_of fv k = Some s \<longrightarrow> (\<exists>s'. map_of fv' k = Some s' \<and> s \<subseteq> s')"
  proof (intro allI impI)
    fix k s assume "map_of fv k = Some s"
    from m1 [OF this] obtain s1 where "map_of fv1 k = Some s1" "s \<subseteq> s1" by blast
    with mono obtain s' where "map_of fv' k = Some s'" "s1 \<subseteq> s'" by blast
    with \<open>s \<subseteq> s1\<close> show "\<exists>s'. map_of fv' k = Some s' \<and> s \<subseteq> s'" by blast
  qed
  have here: "\<exists>seen'. map_of fv' feat = Some seen' \<and> v \<in> seen'"
  proof -
    from v1 obtain s1 where "map_of fv1 feat = Some s1" "v \<in> s1" by blast
    with mono obtain s' where "map_of fv' feat = Some s'" "s1 \<subseteq> s'" by blast
    with \<open>v \<in> s1\<close> show ?thesis by blast
  qed
  have rec': "\<forall>(feat, v)\<in>set (kv # rest). \<exists>seen'. map_of fv' feat = Some seen' \<and> v \<in> seen'"
    using here rec by (simp add: kv)
  from step r k' k1 mono' rec' show ?case by simp
qed

lemma load_card_recorded:
  assumes "deck_inv d" and "CardDeck.features d = Some fs" and "length flds = length fs"
    and "values_recorded d" and "set fs \<subseteq> fst ` set (feature_values d)"
  shows "fst (load_card d fs flds) = Inr ()
         \<and> values_recorded (snd (load_card d fs flds))
         \<and> fst ` set (feature_values (snd (load_card d fs flds))) = fst ` set (feature_values d)
         \<and> comments (snd (load_card d fs flds)) = comments d"
proof -
  from assms(1,2) obtain cs where cs: "CardDeck.cards d = Some cs" by (auto simp: deck_inv_def)
  define kvs where "kvs = dict_zip fs flds"
  have "set (get_feature_names (Card kvs)) = set fs"
    unfolding kvs_def using assms(3) by (simp add: dict_zip_keys)
  then have "fst ` set kvs = set fs" by (simp add: get_feature_names_def)
  with assms(5) have "fst ` set kvs \<subseteq> fst ` set (feature_values d)" by simp
  from add_values_spec [OF this] obtain fv' where
    r: "add_values kvs (feature_values d) = (Inr (), fv')"
    and k': "fst ` set fv' = fst ` set (feature_values d)"
    and mono: "\<forall>feat seen. map_of (feature_values d) feat = Some seen \<longrightarrow>
                 (\<exists>seen'. map_of fv' feat = Some seen' \<and> seen \<subseteq> seen')"
    and rec: "\<forall>(feat, v)\<in>set kvs. \<exists>seen'. map_of fv' feat = Some seen' \<and> v \<in> seen'"
    by blast
  have res: "load_card d fs flds =
      (Inr (), d\<lparr>CardDeck.cards := Some (cs @ [Card kvs]), feature_values := fv'\<rparr>)"
    using cs r by (simp add: load_card_def Let_def kvs_def [symmetric])
  have old: "\<exists>seen. map_of fv' feat = Some seen \<and> v \<in> seen"
    if "c \<in> set cs" "(feat, v) \<in> set (Card.features c)" for c feat v
  proof -
    from assms(4) cs that obtain s where "map_of (feature_values d) feat = Some s" "v \<in> s"
      unfolding values_recorded_def by blast
    with mono obtain s' where "map_of fv' feat = Some s'" "s \<subseteq> s'" by blast
    with \<open>v \<in> s\<close> show ?thesis by blast
  qed
  have "values_recorded (d\<lparr>CardDeck.cards := Some (cs @ [Card kvs]), feature_values := fv'\<rparr>)"
    unfolding values_recorded_def using old rec by auto
  with res k' show ?thesis by simp
qed

lemma load_lines_recorded:
  assumes "deck_inv d" and "CardDeck.cards d \<noteq> None" and "comments d \<noteq> None"
    and "values_recorded d"
    and "\<forall>fs. CardDeck.features d = Some fs \<longrightarrow> set fs \<subseteq> fst ` set (feature_values d)"
  shows "fst (load_lines d file_lines) = Inr () \<and> values_recorded (snd (load_lines d file_lines))"
  using assms
proof (induction file_lines arbitrary: d)
  case Nil
  then show ?case by simp
next
  case (Cons raw rest)
  define line where "line = strip raw"
  define flds where "flds = split_tab line"
  from Cons.prems(3) obtain cms where cms: "comments d = Some cms" by auto
  have hdr: "fst (load_lines (set_header d flds) rest) = Inr ()
             \<and> values_recorded (snd (load_lines (set_header d flds) rest))"
    if "CardDeck.features d = None"
  proof -
    from that Cons.prems(1,2) have e: "CardDeck.cards d = Some []" by (auto simp: deck_inv_def)
    then have 1: "deck_inv (set_header d flds)" and 2: "CardDeck.cards (set_header d flds) \<noteq> None"
      by (simp_all add: deck_inv_def set_header_def flds_def split_tab_nonempty)
    have 3: "comments (set_header d flds) \<noteq> None" using cms by (simp add: set_header_def)
    have 4: "values_recorded (set_header d flds)"
      using e by (simp add: values_recorded_def set_header_def)
    have 5: "\<forall>fs. CardDeck.features (set_header d flds) = Some fs \<longrightarrow>
                 set fs \<subseteq> fst ` set (feature_values (set_header d flds))"
      by (simp add: set_header_def fold_update_keys)
    from 1 2 3 4 5 show ?thesis by (rule Cons.IH)
  qed
  show ?case
  proof (cases "length line = 0 \<or> line ! 0 = CHR ''#''")
    case True
    have "fst (load_lines (d\<lparr>comments := Some (cms @ [line])\<rparr>) rest) = Inr ()
          \<and> values_recorded (snd (load_lines (d\<lparr>comments := Some (cms @ [line])\<rparr>) rest))"
    proof (rule Cons.IH)
      show "deck_inv (d\<lparr>comments := Some (cms @ [line])\<rparr>)"
        using Cons.prems(1) by (simp add: deck_inv_def)
      show "CardDeck.cards (d\<lparr>comments := Some (cms @ [line])\<rparr>) \<noteq> None"
        using Cons.prems(2) by simp
      show "comments (d\<lparr>comments := Some (cms @ [line])\<rparr>) \<noteq> None" by simp
      show "values_recorded (d\<lparr>comments := Some (cms @ [line])\<rparr>)"
        using Cons.prems(4) by (simp add: values_recorded_def)
      show "\<forall>fs. CardDeck.features (d\<lparr>comments := Some (cms @ [line])\<rparr>) = Some fs \<longrightarrow>
              set fs \<subseteq> fst ` set (feature_values (d\<lparr>comments := Some (cms @ [line])\<rparr>))"
        using Cons.prems(5) by simp
    qed
    with True cms show ?thesis by (simp add: line_def [symmetric])
  next
    case False
    show ?thesis
    proof (cases "CardDeck.features d")
      case None
      with False hdr show ?thesis by (simp add: line_def [symmetric] flds_def [symmetric])
    next
      case (Some fs)
      with Cons.prems(1) have ne: "fs \<noteq> []" by (auto simp: deck_inv_def)
      from Some Cons.prems(5) have keys: "set fs \<subseteq> fst ` set (feature_values d)" by simp
      show ?thesis
      proof (cases "length flds \<noteq> length fs")
        case True
        with False Some ne Cons.IH [OF Cons.prems] show ?thesis
          by (simp add: line_def [symmetric] flds_def [symmetric])
      next
        case eq: False
        then have l: "length flds = length fs" by simp
        obtain r d1 where lc: "load_card d fs flds = (r, d1)" by (cases "load_card d fs flds")
        from load_card_inv [OF Cons.prems(1) Some l] lc
        have 1: "deck_inv d1" and 2: "CardDeck.cards d1 \<noteq> None"
          and f1: "CardDeck.features d1 = Some fs" by simp_all
        from load_card_recorded [OF Cons.prems(1) Some l Cons.prems(4) keys] lc
        have rr: "r = Inr ()" and 4: "values_recorded d1"
          and k1: "fst ` set (feature_values d1) = fst ` set (feature_values d)"
          and c1: "comments d1 = comments d" by simp_all
        have 3: "comments d1 \<noteq> None" using c1 cms by simp
        have 5: "\<forall>fs. CardDeck.features d1 = Some fs \<longrightarrow> set fs \<subseteq> fst ` set (feature_values d1)"
          using f1 k1 keys by simp
        from False Some ne l lc rr Cons.IH [OF 1 2 3 4 5] show ?thesis
          by (simp add: line_def [symmetric] flds_def [symmetric])
      qed
    qed
  qed
qed

text \<open>Loading a file raises nothing and records every value of every card it loads.\<close>

lemma load_file_recorded:
  "fst (load_file d file_lines) = Inr () \<and> values_recorded (snd (load_file d file_lines))"
  unfolding load_file_def
  by (rule load_lines_recorded) (simp_all add: deck_inv_def values_recorded_def)

text \<open>
  Claim C10. After an operation that puts a card into the deck, every feature value of every
  card is to be in the deck's set of distinct values for its feature. \<open>load_file\<close> does
  that (\<open>load_file_recorded\<close>); \<open>add_card\<close> never touches \<open>feature_values\<close>
  (\<open>add_card_feature_values\<close>). On the deck loaded from the header \<open>Color\<close> and the rows
  \<open>red\<close> and \<open>blue\<close>, adding the card \<open>{Color: green}\<close> succeeds and appends the card, and
  \<open>green\<close> is not among the recorded values of \<open>Color\<close>.
\<close>

theorem add_card_skips_feature_values:
  "fst (add_card (snd (load_file new_deck [''Color\<newline>'', ''red\<newline>'', ''blue\<newline>'']))
                 (Card [(''Color'', ''green'')])) = Inr True
   \<and> CardDeck.cards (snd (add_card (snd (load_file new_deck [''Color\<newline>'', ''red\<newline>'', ''blue\<newline>'']))
                 (Card [(''Color'', ''green'')])))
      = Some [Card [(''Color'', ''red'')], Card [(''Color'', ''blue'')], Card [(''Color'', ''green'')]]
   \<and> feature_values (snd (add_card (snd (load_file new_deck [''Color\<newline>'', ''red\<newline>'', ''blue\<newline>'']))
                 (Card [(''Color'', ''green'')])))
      = [(''Color'', {''red'', ''blue''})]
   \<and> ''green'' \<notin> {''red'', ''blue''}"
  by code_simp

subsection \<open>\<open>solve\<close>\<close>

lemma is_set_accepts:
  assumes "\<forall>a\<in>set grp. \<forall>b\<in>set grp. compatible a (IsCard b)"
    and "\<forall>c\<in>set grp. get_feature_names c \<noteq> []"
  shows "\<exists>r. is_set grp = Inr r \<and> (truthy_dict r \<longleftrightarrow> r \<noteq> None)"
proof (cases "grp = []")
  case True
  then show ?thesis by (simp add: is_set_def truthy_dict_def)
next
  case False
  define names where "names = get_feature_names (grp ! 0)"
  define col where "col = (\<lambda>feat. map (\<lambda>c. the (map_of (Card.features c) feat)) grp)"
  from False have c0: "grp ! 0 \<in> set grp" by simp
  with assms(2) have nn: "names \<noteq> []" by (simp add: names_def)
  have cols: "\<forall>feat\<in>set names. column feat grp = Inr (col feat)"
  proof
    fix feat assume f: "feat \<in> set names"
    have "\<forall>c\<in>set grp. feat \<in> set (get_feature_names c)"
    proof
      fix c assume "c \<in> set grp"
      with assms(1) c0 have "compatible c (IsCard (grp ! 0))" by blast
      with f show "feat \<in> set (get_feature_names c)"
        by (simp add: compatible_set_eq other_names_def names_def)
    qed
    then show "column feat grp = Inr (col feat)" unfolding col_def by (rule column_total)
  qed
  have keys: "fold (\<lambda>feat. AList.update feat (the (is_feature_a_set (col feat)))) names [] \<noteq> []"
  proof
    assume "fold (\<lambda>feat. AList.update feat (the (is_feature_a_set (col feat)))) names [] = []"
    then have "fst ` set (fold (\<lambda>feat. AList.update feat (the (is_feature_a_set (col feat)))) names [])
               = {}" by simp
    then have "set names = {}" by (simp add: fold_update_keys)
    with nn show False by simp
  qed
  show ?thesis
    using False keys is_set_loop_spec [OF cols, of "[]"]
    by (simp add: is_set_def names_def truthy_dict_def)
qed

lemma solve_loop_spec:
  assumes "CardDeck.cards d = Some cs"
    and "\<forall>a\<in>set cs. \<forall>b\<in>set cs. compatible a (IsCard b)"
    and "\<forall>c\<in>set cs. get_feature_names c \<noteq> []"
    and "\<forall>combo\<in>set combos. set combo \<subseteq> {0..<length cs}"
  shows "solve_loop d combos =
           (Inr (sets d @ map (\<lambda>combo. CardSet_init (map ((!) cs) combo) (Some combo))
                             (filter (\<lambda>combo. \<exists>m. is_set (map ((!) cs) combo) = Inr (Some m)) combos)),
            d\<lparr>sets := sets d @ map (\<lambda>combo. CardSet_init (map ((!) cs) combo) (Some combo))
                             (filter (\<lambda>combo. \<exists>m. is_set (map ((!) cs) combo) = Inr (Some m)) combos)\<rparr>)"
  using assms(1,4)
proof (induction combos arbitrary: d)
  case Nil
  show ?case by simp
next
  case (Cons combo rest)
  define grp where "grp = map ((!) cs) combo"
  from Cons.prems(2) have pos: "set combo \<subseteq> {0..<length cs}"
    and rest: "\<forall>combo\<in>set rest. set combo \<subseteq> {0..<length cs}" by simp_all
  have "\<forall>p\<in>set combo. card_at d p = Inr (cs ! p)"
    using pos Cons.prems(1) by (auto simp: card_at_def)
  then have comp: "comprehension (card_at d) combo = Inr grp"
    unfolding grp_def by (rule comprehension_Inr)
  have sub: "set grp \<subseteq> set cs" using pos by (auto simp: grp_def)
  from sub assms(2) have pc: "\<forall>a\<in>set grp. \<forall>b\<in>set grp. compatible a (IsCard b)" by blast
  from sub assms(3) have ne: "\<forall>c\<in>set grp. get_feature_names c \<noteq> []" by blast
  from is_set_accepts [OF pc ne] obtain r where r: "is_set grp = Inr r"
    and t: "truthy_dict r \<longleftrightarrow> r \<noteq> None" by blast
  show ?case
  proof (cases r)
    case None
    with r t comp Cons.IH [OF Cons.prems(1) rest] show ?thesis
      by (simp add: grp_def [symmetric])
  next
    case (Some m)
    have c': "CardDeck.cards (d\<lparr>sets := sets d @ [CardSet_init grp (Some combo)]\<rparr>) = Some cs"
      using Cons.prems(1) by simp
    from Some r t comp Cons.IH [OF c' rest] show ?thesis
      by (simp add: grp_def [symmetric])
  qed
qed

text \<open>
  What \<open>solve\<close> does on a deck with a schema: it raises nothing, it replaces \<open>sets\<close> by
  the new results and returns them, one \<open>CardSet\<close> for each position combination whose cards
  \<open>is_set\<close> accepts, in the generator's order, with the positions and the cards. The
  \<open>set_types\<close> of every result is \<open>None\<close>.
\<close>

lemma solve_spec:
  assumes "deck_inv d" and "CardDeck.cards d = Some cs" and "CardDeck.features d = Some fs"
  shows "solve d k =
           (Inr (map (\<lambda>combo. \<lparr>card_positions = Some combo, cards = map ((!) cs) combo,
                                set_types = None\<rparr>)
                     (filter (\<lambda>combo. \<exists>m. is_set (map ((!) cs) combo) = Inr (Some m))
                             (generate_card_combos [0..<length cs] k))),
            d\<lparr>sets := map (\<lambda>combo. \<lparr>card_positions = Some combo, cards = map ((!) cs) combo,
                                      set_types = None\<rparr>)
                     (filter (\<lambda>combo. \<exists>m. is_set (map ((!) cs) combo) = Inr (Some m))
                             (generate_card_combos [0..<length cs] k))\<rparr>)"
proof -
  from assms have fs: "fs \<noteq> []" and same: "\<forall>c\<in>set cs. set (get_feature_names c) = set fs"
    by (auto simp: deck_inv_def)
  have pc: "\<forall>a\<in>set cs. \<forall>b\<in>set cs. compatible a (IsCard b)"
    using same by (simp add: compatible_set_eq other_names_def)
  have ne: "\<forall>c\<in>set cs. get_feature_names c \<noteq> []"
  proof
    fix c assume "c \<in> set cs"
    with same have "set (get_feature_names c) = set fs" by blast
    with fs show "get_feature_names c \<noteq> []" by auto
  qed
  have pos: "\<forall>combo\<in>set (generate_card_combos [0..<length cs] k). set combo \<subseteq> {0..<length cs}"
  proof
    fix combo assume "combo \<in> set (generate_card_combos [0..<length cs] k)"
    from generate_card_combos_elem [OF this, of "(<)"]
    show "set combo \<subseteq> {0..<length cs}" by simp
  qed
  have c': "CardDeck.cards (d\<lparr>sets := []\<rparr>) = Some cs" using assms(2) by simp
  from solve_loop_spec [OF c' pc ne pos] assms(2,3) show ?thesis
    by (simp add: solve_def card_position_combos_def CardSet_init_def)
qed

lemma solve_without_schema:
  "CardDeck.features d = None \<Longrightarrow> solve d k = (Inl TypeError, d\<lparr>sets := []\<rparr>)"
  by (simp add: solve_def)

text \<open>
  Claim C3. \<open>solve(k)\<close> is to return one match record for each combination that \<open>is_set\<close>
  accepts, holding the positions, the cards and the classification of every feature. The
  records hold the positions and the cards (\<open>solve_spec\<close>), but \<open>solve\<close> never stores
  what \<open>is_set\<close> returned: on the deck loaded from the header \<open>Color\<close> and the rows \<open>red\<close> and
  \<open>blue\<close>, \<open>solve(2)\<close> returns the one record for the positions 0 and 1 with
  \<open>set_types = None\<close>, while \<open>is_set\<close> on the two cards returns \<open>{Color: Different}\<close>.
\<close>

theorem solve_leaves_set_types_unset:
  "fst (solve (snd (load_file new_deck [''Color\<newline>'', ''red\<newline>'', ''blue\<newline>''])) 2) =
     Inr [\<lparr>card_positions = Some [0, 1],
           cards = [Card [(''Color'', ''red'')], Card [(''Color'', ''blue'')]],
           set_types = None\<rparr>]
   \<and> is_set [Card [(''Color'', ''red'')], Card [(''Color'', ''blue'')]]
       = Inr (Some [(''Color'', ''Different'')])"
  by code_simp

text \<open>
  Claim C6. On every non-empty deck built through the class, \<open>solve(0)\<close> returns the empty
  list, and so does \<open>solve(k)\<close> for every \<open>k\<close> greater than the number of cards; neither
  raises, and the deck's \<open>sets\<close> is left empty.
\<close>

theorem solve_pathological_sizes:
  assumes "reachable d" and "CardDeck.cards d = Some cs" and "cs \<noteq> []"
  shows "solve d 0 = (Inr [], d\<lparr>sets := []\<rparr>)
         \<and> (\<forall>k. int (length cs) < k \<longrightarrow> solve d k = (Inr [], d\<lparr>sets := []\<rparr>))"
proof -
  from assms(1) have inv: "deck_inv d" by (rule reachable_inv)
  with assms(2,3) obtain fs where fs: "CardDeck.features d = Some fs"
    by (cases "CardDeck.features d") (auto simp: deck_inv_def)
  have z: "generate_card_combos [0..<length cs] 0 = [[]]"
    by (simp add: generate_card_combos.simps)
  have "is_set (map ((!) cs) []) = Inr None" by (simp add: is_set_def)
  then have a: "solve d 0 = (Inr [], d\<lparr>sets := []\<rparr>)"
    by (simp add: solve_spec [OF inv assms(2) fs] z)
  have b: "solve d k = (Inr [], d\<lparr>sets := []\<rparr>)" if "int (length cs) < k" for k
  proof -
    from that have "length (generate_card_combos [0..<length cs] k) = 0"
      by (simp add: generate_card_combos_length)
    then have "generate_card_combos [0..<length cs] k = []" by simp
    then show ?thesis by (simp add: solve_spec [OF inv assms(2) fs])
  qed
  from a b show ?thesis by blast
qed

theorem solve_pathological_sizes_witness:
  "reachable (snd (load_file new_deck [''Color\<newline>'', ''red\<newline>'', ''blue\<newline>'']))
   \<and> CardDeck.cards (snd (load_file new_deck [''Color\<newline>'', ''red\<newline>'', ''blue\<newline>'']))
       = Some [Card [(''Color'', ''red'')], Card [(''Color'', ''blue'')]]
   \<and> [Card [(''Color'', ''red'')], Card [(''Color'', ''blue'')]] \<noteq> []
   \<and> fst (solve (snd (load_file new_deck [''Color\<newline>'', ''red\<newline>'', ''blue\<newline>''])) 0) = Inr []
   \<and> fst (solve (snd (load_file new_deck [''Color\<newline>'', ''red\<newline>'', ''blue\<newline>''])) 3) = Inr []"
proof -
  let ?d = "snd (load_file new_deck [''Color\<newline>'', ''red\<newline>'', ''blue\<newline>''])"
  let ?cs = "[Card [(''Color'', ''red'')], Card [(''Color'', ''blue'')]]"
  have r: "reachable ?d" by (rule reachable_load) (rule reachable_new)
  have c: "CardDeck.cards ?d = Some ?cs" by code_simp
  have n: "?cs \<noteq> []" by simp
  from solve_pathological_sizes [OF r c n]
  have "solve ?d 0 = (Inr [], ?d\<lparr>sets := []\<rparr>)" and "solve ?d 3 = (Inr [], ?d\<lparr>sets := []\<rparr>)"
    by simp_all
  then have "fst (solve ?d 0) = Inr []" and "fst (solve ?d 3) = Inr []"
    by (simp_all only: fst_conv)
  with r c n show ?thesis by blast
qed

end
